theory Spec2Isabelle
  imports Complex_Main "HOL-Library.Sublist"
begin

section \<open>Data model\<close>

text \<open>
  The camera vendors of \<^verbatim>\<open>CameraVendor\<close> (the keys of the tables in
  \<^verbatim>\<open>constants.ts\<close>), the protocol set and the auth type of a fingerprint.
\<close>

datatype CameraVendor =
  Hikvision | Dahua | Axis | Reolink | Amcrest | Foscam | TpLink | Uniview | Vivotek
  | Hanwha | Bosch | UnknownVendor

datatype ProtocolType = Http | Https | Rtsp | Onvif | Telnet | Ssh

datatype AuthType = AuthNone | AuthBasic | AuthDigest | AuthForm | AuthBearer | AuthUnknown

record Credential =
  username :: string
  password :: string

text \<open>
  The fields of \<^verbatim>\<open>FingerprintResult\<close> the modelled functions read. Ports are
  natural numbers; an IP is the string the discovery phase produced.
\<close>

record FingerprintResult =
  ip :: string
  port :: nat
  vendor :: CameraVendor
  protocols :: "ProtocolType list"
  authType :: AuthType

text \<open>
  The fields of \<^verbatim>\<open>VeilcamsConfig\<close> the modelled functions read:
  \<^verbatim>\<open>credentials.{use_defaults, custom, max_attempts_per_host}\<close> and
  \<^verbatim>\<open>protocols.rtsp\<close>.
\<close>

record VeilcamsConfig =
  use_defaults :: bool
  custom :: "Credential list"
  max_attempts_per_host :: nat
  protocols_rtsp :: bool

definition cred :: "string \<Rightarrow> string \<Rightarrow> Credential" where
  "cred u p = \<lparr>username = u, password = p\<rparr>"

text \<open>\<^verbatim>\<open>DEFAULT_CREDENTIALS\<close> of \<^verbatim>\<open>constants.ts\<close>, entry by entry.\<close>

fun DEFAULT_CREDENTIALS :: "CameraVendor \<Rightarrow> Credential list" where
  "DEFAULT_CREDENTIALS Hikvision =
     [cred ''admin'' ''12345'', cred ''admin'' ''admin'', cred ''admin'' ''Admin12345'',
      cred ''admin'' ''hiklinux'', cred ''admin'' '''', cred ''admin'' ''admin123'',
      cred ''admin'' ''password'']"
| "DEFAULT_CREDENTIALS Dahua =
     [cred ''admin'' ''admin'', cred ''admin'' ''admin123'', cred ''admin'' '''',
      cred ''admin'' ''123456'', cred ''888888'' ''888888'', cred ''default'' ''default'']"
| "DEFAULT_CREDENTIALS Axis =
     [cred ''root'' ''root'', cred ''root'' ''pass'', cred ''root'' '''',
      cred ''admin'' ''admin'', cred ''operator'' ''operator'']"
| "DEFAULT_CREDENTIALS Reolink =
     [cred ''admin'' '''', cred ''admin'' ''admin'', cred ''admin'' ''123456'']"
| "DEFAULT_CREDENTIALS Amcrest =
     [cred ''admin'' ''admin'', cred ''admin'' ''admin123'', cred ''admin'' '''']"
| "DEFAULT_CREDENTIALS Foscam =
     [cred ''admin'' '''', cred ''admin'' ''admin'', cred ''admin'' ''foscam'']"
| "DEFAULT_CREDENTIALS TpLink =
     [cred ''admin'' ''admin'', cred ''admin'' ''2211'', cred ''admin'' '''']"
| "DEFAULT_CREDENTIALS Uniview =
     [cred ''admin'' ''123456'', cred ''admin'' ''admin'']"
| "DEFAULT_CREDENTIALS Vivotek =
     [cred ''root'' '''', cred ''root'' ''root'', cred ''admin'' ''admin'']"
| "DEFAULT_CREDENTIALS Hanwha =
     [cred ''admin'' ''4321'', cred ''admin'' ''admin'', cred ''admin'' '''']"
| "DEFAULT_CREDENTIALS Bosch =
     [cred ''admin'' '''', cred ''admin'' ''admin'', cred ''service'' ''service'']"
| "DEFAULT_CREDENTIALS UnknownVendor =
     [cred ''admin'' ''admin'', cred ''admin'' '''', cred ''admin'' ''12345'',
      cred ''admin'' ''123456'', cred ''admin'' ''password'', cred ''root'' ''root'',
      cred ''root'' '''', cred ''user'' ''user'', cred ''admin'' ''1234'',
      cred ''admin'' ''admin123'']"


section \<open>Credential list construction\<close>

text \<open>
  \<^verbatim>\<open>buildCredentialList\<close> (credential-tester.ts, lines 113-143; the same text in
  both copies of the module). The closure \<^verbatim>\<open>addCred\<close> mutates the pair
  \<^verbatim>\<open>(creds, seen)\<close>; here the pair is passed and returned. \<^verbatim>\<open>forEach\<close> is the
  left fold.
\<close>

definition credKey :: "Credential \<Rightarrow> string" where
  "credKey c = username c @ '':'' @ password c"

definition addCred :: "Credential list \<times> string set \<Rightarrow> Credential \<Rightarrow> Credential list \<times> string set" where
  "addCred st c =
     (let key = credKey c in
      if key \<notin> snd st then (fst st @ [c], insert key (snd st)) else st)"

definition forEach_addCred :: "Credential list \<Rightarrow> Credential list \<times> string set \<Rightarrow> Credential list \<times> string set" where
  "forEach_addCred cs st = foldl addCred st cs"

definition buildCredentialList :: "FingerprintResult \<Rightarrow> VeilcamsConfig \<Rightarrow> Credential list" where
  "buildCredentialList target config =
     (let st0 = ([], {});
          st1 = (if use_defaults config then
                   (let vendorCreds = DEFAULT_CREDENTIALS (vendor target);
                        s = forEach_addCred vendorCreds st0
                    in if vendor target \<noteq> UnknownVendor
                       then forEach_addCred (DEFAULT_CREDENTIALS UnknownVendor) s
                       else s)
                 else st0);
          st2 = forEach_addCred (custom config) st1
      in fst st2)"

text \<open>
  The specification the result is compared with: the first occurrence of every key, in
  the order of the input.
\<close>

fun firstByKey :: "string set \<Rightarrow> Credential list \<Rightarrow> Credential list" where
  "firstByKey seen [] = []"
| "firstByKey seen (c # cs) =
     (if credKey c \<in> seen then firstByKey seen cs
      else c # firstByKey (insert (credKey c) seen) cs)"

definition vendorBlock :: "FingerprintResult \<Rightarrow> Credential list" where
  "vendorBlock target = DEFAULT_CREDENTIALS (vendor target)"

definition genericBlock :: "FingerprintResult \<Rightarrow> Credential list" where
  "genericBlock target =
     (if vendor target \<noteq> UnknownVendor then DEFAULT_CREDENTIALS UnknownVendor else [])"

definition candidateList :: "FingerprintResult \<Rightarrow> VeilcamsConfig \<Rightarrow> Credential list" where
  "candidateList target config = vendorBlock target @ genericBlock target @ custom config"

section \<open>Strings and regular expressions of the source\<close>

text \<open>
  A JavaScript string is modelled as a \<^typ>\<open>string\<close>: one \<^typ>\<open>char\<close> per code unit,
  \<^const>\<open>length\<close> for \<^verbatim>\<open>.length\<close>. The patterns of the source only name
  ASCII characters, so case folding is the folding of the letters A to Z.
\<close>

definition toLowerAscii :: "char \<Rightarrow> char" where
  "toLowerAscii c =
     (case map_of (zip ''ABCDEFGHIJKLMNOPQRSTUVWXYZ'' ''abcdefghijklmnopqrstuvwxyz'') c of
        Some l \<Rightarrow> l
      | None \<Rightarrow> c)"

definition toLowerCase :: "string \<Rightarrow> string" where
  "toLowerCase s = map toLowerAscii s"

text \<open>
  The character classes the patterns use: a literal (compared case-insensitively, the
  \<^verbatim>\<open>/i\<close> flag), the dot (any character but a line terminator), \<^verbatim>\<open>\s\<close>,
  \<^verbatim>\<open>\d\<close> and a bracket set such as \<^verbatim>\<open>[45]\<close>.
\<close>

datatype rx_class = CLit char | CDot | CSpace | CDigit | COneOf string

definition lineTerminators :: "char list" where
  "lineTerminators = [CHR 0x0A, CHR 0x0D]"

definition whiteSpaceChars :: "char list" where
  "whiteSpaceChars = [CHR 0x09, CHR 0x0A, CHR 0x0B, CHR 0x0C, CHR 0x0D, CHR 0x20, CHR 0xA0]"

fun clsOk :: "rx_class \<Rightarrow> char \<Rightarrow> bool" where
  "clsOk (CLit c) x = (toLowerAscii x = toLowerAscii c)"
| "clsOk CDot x = (x \<notin> set lineTerminators)"
| "clsOk CSpace x = (x \<in> set whiteSpaceChars)"
| "clsOk CDigit x = (x \<in> set ''0123456789'')"
| "clsOk (COneOf cs) x = (x \<in> set cs)"

text \<open>
  Every pattern of the source is an alternation of sequences of items: one character of
  a class, an optional one (\<^verbatim>\<open>?\<close>) or any number of them (\<^verbatim>\<open>*\<close>).
  \<open>matchSeq p s\<close>: the sequence \<open>p\<close> matches a prefix of \<open>s\<close>.
  \<open>regexTest\<close> is \<^verbatim>\<open>RegExp.prototype.test\<close> without anchors: some alternative
  matches at some position.
\<close>

datatype rx_item = One rx_class | Optional rx_class | Many rx_class

fun matchSeq :: "rx_item list \<Rightarrow> string \<Rightarrow> bool" where
  "matchSeq [] s = True"
| "matchSeq (One k # r) [] = False"
| "matchSeq (One k # r) (x # xs) = (clsOk k x \<and> matchSeq r xs)"
| "matchSeq (Optional k # r) [] = matchSeq r []"
| "matchSeq (Optional k # r) (x # xs) = ((clsOk k x \<and> matchSeq r xs) \<or> matchSeq r (x # xs))"
| "matchSeq (Many k # r) [] = matchSeq r []"
| "matchSeq (Many k # r) (x # xs) = (matchSeq r (x # xs) \<or> (clsOk k x \<and> matchSeq (Many k # r) xs))"

definition lit :: "string \<Rightarrow> rx_item list" where
  "lit w = map (\<lambda>c. One (CLit c)) w"

fun regexTest :: "rx_item list list \<Rightarrow> string \<Rightarrow> bool" where
  "regexTest alts [] = list_ex (\<lambda>p. matchSeq p []) alts"
| "regexTest alts (x # xs) = (list_ex (\<lambda>p. matchSeq p (x # xs)) alts \<or> regexTest alts xs)"

text \<open>Decimal rendering of a number in a template string.\<close>

fun showNat :: "nat \<Rightarrow> string" where
  "showNat n = (if n < 10 then [''0123456789'' ! n]
                else showNat (n div 10) @ [''0123456789'' ! (n mod 10)])"

definition showInt :: "int \<Rightarrow> string" where
  "showInt i = (if i < 0 then ''-'' @ showNat (nat (- i)) else showNat (nat i))"

text \<open>The em dash of the evidence strings, as its UTF-8 bytes.\<close>

definition emDash :: string where
  "emDash = [CHR 0xE2, CHR 0x80, CHR 0x94]"

section \<open>Network environment\<close>

text \<open>
  The network is the environment of the credential tester. A call of \<^verbatim>\<open>httpGet\<close>,
  \<^verbatim>\<open>httpPost\<close> or \<^verbatim>\<open>rtspDescribe\<close> takes the current world and returns the
  reply, or the message of the error it throws (\<open>Inl\<close>), and the next world; the world
  type \<open>'w\<close> is arbitrary, so hosts may answer differently over time.
  \<^verbatim>\<open>resp.data\<close> is either a string or something else; for the latter the model
  carries the text \<^verbatim>\<open>JSON.stringify(resp.data || '')\<close>.
\<close>

datatype resp_data = StrData string | JsonData string

datatype http_method = GET | POST

record HttpRequest =
  reqMethod :: http_method
  reqUrl :: string
  reqAuth :: "Credential option"
  reqAuthorization :: "string option"
  reqBody :: "(string \<times> string) list"
  reqTimeout :: nat

record HttpResponse =
  respStatus :: int
  respData :: resp_data
  respHeaders :: "string \<Rightarrow> string option"

record RtspRequest =
  rtspHost :: string
  rtspPort :: nat
  rtspPath :: string
  rtspAuth :: "Credential option"
  rtspTimeout :: nat

record RtspResponse =
  statusCode :: int
  raw :: string

text \<open>
  The environment also holds the clock (\<^verbatim>\<open>new Date().toISOString()\<close>), the random
  source of the client nonce (\<^verbatim>\<open>randomBytes(8).toString('hex')\<close>), the library's MD5
  (\<^verbatim>\<open>createHash('md5').update(s).digest('hex')\<close>) and the parser of the
  \<^verbatim>\<open>WWW-Authenticate\<close> header, whose result only feeds the Authorization header of
  the Digest request.
\<close>

record 'w Env =
  httpNet :: "'w \<Rightarrow> HttpRequest \<Rightarrow> (string + HttpResponse) \<times> 'w"
  rtspNet :: "'w \<Rightarrow> RtspRequest \<Rightarrow> (string + RtspResponse) \<times> 'w"
  clock :: "'w \<Rightarrow> string"
  randomHex :: "'w \<Rightarrow> string \<times> 'w"
  md5 :: "string \<Rightarrow> string"
  parseWwwAuthenticate :: "string \<Rightarrow> string \<Rightarrow> string option"

text \<open>
  The state of the credential tester: the world, the two module-level caches
  (\<^verbatim>\<open>baselineCache\<close>, \<^verbatim>\<open>rtspUnauthCache\<close>), and two logs of the requests sent so
  far (not in the source: kept to state how often a request is made).
\<close>

record Baseline =
  status :: int
  body :: string

record 'w TesterState =
  world :: 'w
  baselineCache :: "string \<Rightarrow> Baseline option"
  rtspUnauthCache :: "string \<Rightarrow> bool option"
  httpLog :: "HttpRequest list"
  rtspLog :: "RtspRequest list"

definition httpGetReq :: "string \<Rightarrow> Credential option \<Rightarrow> string option \<Rightarrow> HttpRequest" where
  "httpGetReq u a h =
     \<lparr>reqMethod = GET, reqUrl = u, reqAuth = a, reqAuthorization = h, reqBody = [], reqTimeout = 8000\<rparr>"

definition httpPostReq :: "string \<Rightarrow> (string \<times> string) list \<Rightarrow> HttpRequest" where
  "httpPostReq u b =
     \<lparr>reqMethod = POST, reqUrl = u, reqAuth = None, reqAuthorization = None, reqBody = b,
      reqTimeout = 8000\<rparr>"

definition doHttp :: "'w Env \<Rightarrow> HttpRequest \<Rightarrow> 'w TesterState \<Rightarrow> (string + HttpResponse) \<times> 'w TesterState" where
  "doHttp env req st =
     (let (r, w') = httpNet env (world st) req
      in (r, st\<lparr>world := w', httpLog := httpLog st @ [req]\<rparr>))"

definition doRtsp :: "'w Env \<Rightarrow> RtspRequest \<Rightarrow> 'w TesterState \<Rightarrow> (string + RtspResponse) \<times> 'w TesterState" where
  "doRtsp env req st =
     (let (r, w') = rtspNet env (world st) req
      in (r, st\<lparr>world := w', rtspLog := rtspLog st @ [req]\<rparr>))"

text \<open>
  \<^verbatim>\<open>typeof resp.data === 'string' ? resp.data : JSON.stringify(resp.data || '')\<close>, and
  the variant of the Digest challenge,
  \<^verbatim>\<open>typeof challengeResp.data === 'string' ? challengeResp.data : ''\<close>.
\<close>

fun bodyOf :: "resp_data \<Rightarrow> string" where
  "bodyOf (StrData s) = s"
| "bodyOf (JsonData j) = j"


section \<open>Baseline-differential validation\<close>

text \<open>
  \<^verbatim>\<open>getBaseline\<close> (part_002, lines 149-169) is an async function with one
  \<^verbatim>\<open>await\<close>. It runs in two steps, and other tasks may run between them.
  \<open>getBaseline_begin\<close> is the part before the await: the cache test
  (\<^verbatim>\<open>baselineCache.has\<close>, line 154) and, on a miss, the sending of the
  unauthenticated GET (line 159); it gives the cached baseline (\<open>Inl\<close>) or the reply
  the call waits for (\<open>Inr\<close>). \<open>getBaseline_resume\<close> is the part after the await: the
  reply, or \<^verbatim>\<open>{status: -1, body: ''}\<close> when the request throws, is written to the
  cache of the state the call resumes in (lines 160-167) and returned.
\<close>

definition getBaseline_begin ::
  "'w Env \<Rightarrow> string \<Rightarrow> 'w TesterState \<Rightarrow> (Baseline + (string + HttpResponse)) \<times> 'w TesterState" where
  "getBaseline_begin env baseUrl st =
     (case baselineCache st baseUrl of
        Some b \<Rightarrow> (Inl b, st)
      | None \<Rightarrow>
          (case doHttp env (httpGetReq baseUrl None None) st of
             (reply, st1) \<Rightarrow> (Inr reply, st1)))"

fun replyBaseline :: "string + HttpResponse \<Rightarrow> Baseline" where
  "replyBaseline (Inr resp) = \<lparr>status = respStatus resp, body = bodyOf (respData resp)\<rparr>"
| "replyBaseline (Inl err) = \<lparr>status = - 1, body = ''''\<rparr>"

definition getBaseline_resume ::
  "string \<Rightarrow> string + HttpResponse \<Rightarrow> 'w TesterState \<Rightarrow> Baseline \<times> 'w TesterState" where
  "getBaseline_resume baseUrl reply st =
     (let baseline = replyBaseline reply
      in (baseline, st\<lparr>baselineCache := (baselineCache st)(baseUrl \<mapsto> baseline)\<rparr>))"


text \<open>
  Several calls in flight on the event loop. Call \<open>i\<close> asks for the baseline of the
  \<open>i\<close>-th URL; a schedule lists which call runs its next step. A call that has not
  started runs \<open>getBaseline_begin\<close>, a waiting call runs \<open>getBaseline_resume\<close>.
\<close>

datatype call_state = NotStarted | Waiting "string + HttpResponse" | Finished Baseline

definition stepCall ::
  "'w Env \<Rightarrow> string list \<Rightarrow> call_state list \<times> 'w TesterState \<Rightarrow> nat
   \<Rightarrow> call_state list \<times> 'w TesterState" where
  "stepCall env urls cs i =
     (case cs of (calls, st) \<Rightarrow>
        if i < length calls \<and> i < length urls then
          (case calls ! i of
             NotStarted \<Rightarrow>
               (case getBaseline_begin env (urls ! i) st of
                  (Inl b, st1) \<Rightarrow> (calls[i := Finished b], st1)
                | (Inr reply, st1) \<Rightarrow> (calls[i := Waiting reply], st1))
           | Waiting reply \<Rightarrow>
               (case getBaseline_resume (urls ! i) reply st of
                  (b, st1) \<Rightarrow> (calls[i := Finished b], st1))
           | Finished b \<Rightarrow> (calls, st))
        else (calls, st))"

definition runCalls ::
  "'w Env \<Rightarrow> string list \<Rightarrow> nat list \<Rightarrow> 'w TesterState \<Rightarrow> call_state list \<times> 'w TesterState" where
  "runCalls env urls schedule st =
     foldl (stepCall env urls) (replicate (length urls) NotStarted, st) schedule"

text \<open>
  The pattern
  \<^verbatim>\<open>/(logout|sign.?out|dashboard|welcome|session|authenticated|token)/i\<close>.
\<close>

definition authIndicators :: "rx_item list list" where
  "authIndicators =
     [lit ''logout'', lit ''sign'' @ [Optional CDot] @ lit ''out'', lit ''dashboard'',
      lit ''welcome'', lit ''session'', lit ''authenticated'', lit ''token'']"

text \<open>
  \<^verbatim>\<open>isAuthenticatedResponseDifferent\<close> (part_002, lines 175-216), branch by branch.
  \<^verbatim>\<open>sizeDiff / maxSize < 0.1\<close> is a division of two integers below \<open>2^53\<close>
  compared with the double nearest to one tenth; for such operands the comparison has
  the value of the exact one, which the model takes over the reals.
\<close>

definition isAuthenticatedResponseDifferent :: "Baseline \<Rightarrow> Baseline \<Rightarrow> bool" where
  "isAuthenticatedResponseDifferent baseline authed =
     (if (status baseline = 401 \<or> status baseline = 403)
         \<and> status authed \<ge> 200 \<and> status authed < 400 then True
      else if status baseline = - 1 \<and> status authed \<ge> 200 \<and> status authed < 400 then True
      else if status baseline = status authed then
        (if body baseline = body authed then False
         else
           (let sizeDiff = \<bar>int (length (body baseline)) - int (length (body authed))\<bar>;
                maxSize = max (max (length (body baseline)) (length (body authed))) 1
            in if real_of_int sizeDiff / real maxSize < 1 / 10 then
                 (if regexTest authIndicators (body authed)
                     \<and> \<not> regexTest authIndicators (body baseline) then True
                  else False)
               else True))
      else if status authed \<ge> 200 \<and> status authed < 400 \<and> status baseline \<ge> 400 then True
      else False)"

text \<open>
  The case analysis as the specification words it, read literally: a marker is one of
  the seven listed words, contained as written, and the authenticated body has to
  contain one that the baseline body does not contain.
\<close>

definition specMarkers :: "string list" where
  "specMarkers =
     [''logout'', ''sign-out'', ''dashboard'', ''welcome'', ''session'', ''authenticated'', ''token'']"

definition sizeDiffSmall :: "Baseline \<Rightarrow> Baseline \<Rightarrow> bool" where
  "sizeDiffSmall baseline authed =
     (10 * \<bar>int (length (body baseline)) - int (length (body authed))\<bar>
        < int (max (length (body baseline)) (length (body authed))))"

definition okStatus :: "int \<Rightarrow> bool" where
  "okStatus s = (200 \<le> s \<and> s < 400)"

definition specIsDifferent :: "Baseline \<Rightarrow> Baseline \<Rightarrow> bool" where
  "specIsDifferent baseline authed =
     (((status baseline = 401 \<or> status baseline = 403) \<and> okStatus (status authed))
      \<or> (status baseline = - 1 \<and> okStatus (status authed))
      \<or> (status baseline = status authed \<and> body baseline \<noteq> body authed
          \<and> \<not> sizeDiffSmall baseline authed)
      \<or> (status baseline = status authed \<and> sizeDiffSmall baseline authed
          \<and> list_ex (\<lambda>w. sublist w (body authed) \<and> \<not> sublist w (body baseline)) specMarkers)
      \<or> (okStatus (status authed) \<and> status baseline \<ge> 400))"

text \<open>
  The markers as the code matches them: case-insensitively, with \<^verbatim>\<open>sign\<close> and
  \<^verbatim>\<open>out\<close> next to each other or separated by one character that is not a line
  terminator.
\<close>

definition hasAuthMarker :: "string \<Rightarrow> bool" where
  "hasAuthMarker s =
     ((\<exists>w \<in> set [''logout'', ''signout'', ''dashboard'', ''welcome'', ''session'',
                  ''authenticated'', ''token'']. sublist w (toLowerCase s))
      \<or> (\<exists>c. c \<notin> set lineTerminators \<and> sublist (''sign'' @ [c] @ ''out'') (toLowerCase s)))"

definition isDifferentCases :: "Baseline \<Rightarrow> Baseline \<Rightarrow> bool" where
  "isDifferentCases baseline authed =
     (((status baseline = 401 \<or> status baseline = 403) \<and> okStatus (status authed))
      \<or> (status baseline = - 1 \<and> okStatus (status authed))
      \<or> (status baseline = status authed \<and> body baseline \<noteq> body authed
          \<and> \<not> sizeDiffSmall baseline authed)
      \<or> (status baseline = status authed \<and> sizeDiffSmall baseline authed
          \<and> hasAuthMarker (body authed) \<and> \<not> hasAuthMarker (body baseline))
      \<or> (okStatus (status authed) \<and> status baseline \<ge> 400))"

section \<open>Initial state and example environments\<close>

text \<open>
  The state at module load: both caches are \<^verbatim>\<open>new Map()\<close>. \<open>staticEnv\<close> is an
  environment whose hosts answer by the request alone; the world counts the requests.
  It is used to run the model on concrete inputs.
\<close>

definition emptyState :: "'w \<Rightarrow> 'w TesterState" where
  "emptyState w =
     \<lparr>world = w, baselineCache = Map.empty, rtspUnauthCache = Map.empty, httpLog = [], rtspLog = []\<rparr>"

definition staticEnv ::
  "(HttpRequest \<Rightarrow> string + HttpResponse) \<Rightarrow> (RtspRequest \<Rightarrow> string + RtspResponse) \<Rightarrow> nat Env" where
  "staticEnv h r =
     \<lparr>httpNet = (\<lambda>w req. (h req, Suc w)),
      rtspNet = (\<lambda>w req. (r req, Suc w)),
      clock = (\<lambda>w. ''2025-01-01T00:00:00.000Z''),
      randomHex = (\<lambda>w. (''0011223344556677'', Suc w)),
      md5 = (\<lambda>s. s),
      parseWwwAuthenticate = (\<lambda>h k. None)\<rparr>"

definition httpReply :: "int \<Rightarrow> string \<Rightarrow> string + HttpResponse" where
  "httpReply s b = Inr \<lparr>respStatus = s, respData = StrData b, respHeaders = (\<lambda>k. None)\<rparr>"

definition rtspReply :: "int \<Rightarrow> string + RtspResponse" where
  "rtspReply s = Inr \<lparr>statusCode = s, raw = ''''\<rparr>"

text \<open>A host that challenges at one URL and is unreachable elsewhere.\<close>

definition challengeHost :: "HttpRequest \<Rightarrow> string + HttpResponse" where
  "challengeHost req =
     (if reqUrl req = ''http://192.0.2.10:80'' then httpReply 401 '''' else Inl ''ECONNREFUSED'')"

definition noRtsp :: "RtspRequest \<Rightarrow> string + RtspResponse" where
  "noRtsp req = Inl ''ECONNREFUSED''"

text \<open>A state whose cache already holds the baseline of that URL.\<close>

definition cachedState :: "nat TesterState" where
  "cachedState =
     (emptyState 0)
       \<lparr>baselineCache := [''http://192.0.2.10:80'' \<mapsto> \<lparr>status = 401, body = ''''\<rparr>]\<rparr>"

section \<open>Digest authentication\<close>

text \<open>
  \<^verbatim>\<open>computeDigestAuth\<close> (part_008, lines 97-140). The optional parameters are
  options; \<^verbatim>\<open>x || d\<close> on a string takes \<open>d\<close> when \<open>x\<close> is undefined or
  empty. The library's MD5 (hex digest) is the parameter \<open>md5f\<close>, and \<open>rnd\<close> is the
  text \<^verbatim>\<open>randomBytes(8).toString('hex')\<close> would give, which the code only uses when
  no client nonce is passed.
\<close>

record DigestParams =
  dUsername :: string
  dPassword :: string
  dMethod :: string
  dUri :: string
  dRealm :: string
  dNonce :: string
  dQop :: "string option"
  dNc :: "string option"
  dCnonce :: "string option"
  dAlgorithm :: "string option"

fun orElse :: "string option \<Rightarrow> string \<Rightarrow> string" where
  "orElse None d = d"
| "orElse (Some s) d = (if s = [] then d else s)"

definition dq :: string where
  "dq = [CHR 0x22]"

definition computeDigestAuth :: "(string \<Rightarrow> string) \<Rightarrow> string \<Rightarrow> DigestParams \<Rightarrow> string" where
  "computeDigestAuth md5f rnd params =
     (let qop = orElse (dQop params) '''';
          nc = orElse (dNc params) ''00000001'';
          cnonce = orElse (dCnonce params) rnd;
          isMd5Sess = (case dAlgorithm params of None \<Rightarrow> False
                       | Some a \<Rightarrow> toLowerCase a = ''md5-sess'');
          ha1 = md5f (dUsername params @ '':'' @ dRealm params @ '':'' @ dPassword params);
          ha1 = (if isMd5Sess then md5f (ha1 @ '':'' @ dNonce params @ '':'' @ cnonce) else ha1);
          ha2 = md5f (dMethod params @ '':'' @ dUri params);
          response =
            (if qop = ''auth'' \<or> qop = ''auth-int''
             then md5f (ha1 @ '':'' @ dNonce params @ '':'' @ nc @ '':'' @ cnonce @ '':'' @ qop
                        @ '':'' @ ha2)
             else md5f (ha1 @ '':'' @ dNonce params @ '':'' @ ha2));
          header = ''Digest username='' @ dq @ dUsername params @ dq
                   @ '', realm='' @ dq @ dRealm params @ dq
                   @ '', nonce='' @ dq @ dNonce params @ dq
                   @ '', uri='' @ dq @ dUri params @ dq
                   @ '', response='' @ dq @ response @ dq;
          header = (if qop \<noteq> [] then header @ '', qop='' @ qop @ '', nc='' @ nc
                                        @ '', cnonce='' @ dq @ cnonce @ dq
                    else header);
          header = (case dAlgorithm params of
                      None \<Rightarrow> header
                    | Some a \<Rightarrow> if a \<noteq> [] then header @ '', algorithm='' @ a else header)
      in header)"








text \<open>A stand-in digest for running the model: the length of the input, in decimal.\<close>

definition toyDigest :: "string \<Rightarrow> string" where
  "toyDigest s = showNat (length s)"

text \<open>The parameters of the example of RFC 2617, section 3.5, with no \<^verbatim>\<open>nc\<close> passed.\<close>

definition rfcExampleParams :: DigestParams where
  "rfcExampleParams =
     \<lparr>dUsername = ''Mufasa'', dPassword = ''Circle Of Life'', dMethod = ''GET'',
      dUri = ''/dir/index.html'', dRealm = ''testrealm@host.com'',
      dNonce = ''dcd98b7102dd2f0e8b11d0f600bfb0c093'', dQop = Some ''auth'', dNc = None,
      dCnonce = Some ''0a4f113b'', dAlgorithm = Some ''MD5-sess''\<rparr>"

section \<open>Credential tester with baseline validation\<close>

text \<open>
  The implementation of part_002. A \<^verbatim>\<open>CredentialTestResult\<close> is the record below;
  the optional \<^verbatim>\<open>responseCode\<close> is an option.
\<close>

record CredentialTestResult =
  resIp :: string
  resPort :: nat
  resVendor :: CameraVendor
  resProtocol :: ProtocolType
  resCredential :: Credential
  success :: bool
  responseCode :: "int option"
  evidence :: string
  timestamp :: string

text \<open>\<^verbatim>\<open>RTSP_PATHS\<close> of \<^verbatim>\<open>constants.ts\<close>.\<close>

fun RTSP_PATHS :: "CameraVendor \<Rightarrow> string list" where
  "RTSP_PATHS Hikvision =
     [''/Streaming/Channels/101'', ''/Streaming/Channels/102'', ''/Streaming/Channels/201'',
      ''/h264/ch1/main/av_stream'', ''/h264/ch1/sub/av_stream'', ''/ISAPI/Streaming/channels/101'']"
| "RTSP_PATHS Dahua =
     [''/cam/realmonitor?channel=1&subtype=0'', ''/cam/realmonitor?channel=1&subtype=1'',
      ''/live'', ''/MediaInput/h264'']"
| "RTSP_PATHS Axis =
     [''/axis-media/media.amp'', ''/mpeg4/media.amp'', ''/mjpg/video.mjpg'',
      ''/axis-media/media.amp?videocodec=h264'']"
| "RTSP_PATHS Reolink = [''/h264Preview_01_main'', ''/h264Preview_01_sub'', ''/Preview_01_main'']"
| "RTSP_PATHS Amcrest =
     [''/cam/realmonitor?channel=1&subtype=0'', ''/cam/realmonitor?channel=1&subtype=1'']"
| "RTSP_PATHS Foscam = [''/videoMain'', ''/videoSub'', ''/video1'']"
| "RTSP_PATHS TpLink = [''/stream1'', ''/stream2'']"
| "RTSP_PATHS Uniview = [''/unicast/c1/s0/live'', ''/unicast/c1/s1/live'']"
| "RTSP_PATHS Vivotek = [''/live.sdp'', ''/live2.sdp'', ''/video.mp4'']"
| "RTSP_PATHS Hanwha = [''/profile2/media.smp'', ''/profile1/media.smp'']"
| "RTSP_PATHS Bosch = [''/rtsp_tunnel'', ''/video'']"
| "RTSP_PATHS UnknownVendor =
     [''/live'', ''/stream'', ''/stream1'', ''/ch1'', ''/ch01.264'', ''/0'', ''/1'', ''/video'',
      ''/media/video1'', ''/live/ch0'', ''/live/ch1'', ''/live.sdp'', ''/h264'', ''/mpeg4'',
      ''/cam1'']"

definition schemeOf :: "FingerprintResult \<Rightarrow> string" where
  "schemeOf target = (if Https \<in> set (protocols target) then ''https'' else ''http'')"

definition baseUrlOf :: "FingerprintResult \<Rightarrow> string" where
  "baseUrlOf target = schemeOf target @ ''://'' @ ip target @ '':'' @ showNat (port target)"

definition httpProtocolOf :: "FingerprintResult \<Rightarrow> ProtocolType" where
  "httpProtocolOf target = (if schemeOf target = ''https'' then Https else Http)"

definition httpResult ::
  "FingerprintResult \<Rightarrow> Credential \<Rightarrow> string \<Rightarrow> bool \<Rightarrow> int option \<Rightarrow> string \<Rightarrow> CredentialTestResult" where
  "httpResult target c ts ok code ev =
     \<lparr>resIp = ip target, resPort = port target, resVendor = vendor target,
      resProtocol = httpProtocolOf target, resCredential = c, success = ok,
      responseCode = code, evidence = ev, timestamp = ts\<rparr>"

definition connectionError :: "FingerprintResult \<Rightarrow> Credential \<Rightarrow> string \<Rightarrow> string \<Rightarrow> CredentialTestResult" where
  "connectionError target c ts msg =
     httpResult target c ts False None (''Connection error: '' @ msg)"

definition statusOkBasic :: "int \<Rightarrow> bool" where
  "statusOkBasic s = (s \<ge> 200 \<and> s < 400 \<and> s \<noteq> 401)"

definition statusOkDigest :: "int \<Rightarrow> bool" where
  "statusOkDigest s = (s \<ge> 200 \<and> s < 400)"

text \<open>
  The patterns of the form and vendor login checks:
  \<^verbatim>\<open>/(error|fail|invalid|wrong|denied)/i\<close>,
  \<^verbatim>\<open>/(success|ok|true|token|session)/i\<close>,
  \<^verbatim>\<open>/(\"success\"\s*:\s*true|\"statusValue\"\s*:\s*200|\"result\"\s*:\s*true|\"authorized\"\s*:\s*true|token|sessionID)/i\<close>
  and
  \<^verbatim>\<open>/(error|fail|invalid|wrong|denied|unauthorized|\"success\"\s*:\s*false|\"statusValue\"\s*:\s*[45]\d\d)/i\<close>.
\<close>

definition formErrorPattern :: "rx_item list list" where
  "formErrorPattern = [lit ''error'', lit ''fail'', lit ''invalid'', lit ''wrong'', lit ''denied'']"

definition formOkPattern :: "rx_item list list" where
  "formOkPattern = [lit ''success'', lit ''ok'', lit ''true'', lit ''token'', lit ''session'']"




definition loginEndpoints :: "string list" where
  "loginEndpoints =
     [''/RPC2_Login'', ''/ISAPI/Security/userCheck'', ''/cgi-bin/global.login'',
      ''/api.cgi?cmd=Login'', ''/login.cgi'', ''/login'']"


text \<open>
  The loop over the form login endpoints (the same text in both implementations): the
  first endpoint whose reply passes the check gives the result; a request that throws is
  skipped.
\<close>

definition formSuccess :: "HttpResponse \<Rightarrow> bool" where
  "formSuccess resp =
     (let b = bodyOf (respData resp)
      in respStatus resp = 200 \<and> \<not> regexTest formErrorPattern b
         \<and> (regexTest formOkPattern b \<or> length b > 100))"

fun tryFormEndpoints ::
  "'w Env \<Rightarrow> FingerprintResult \<Rightarrow> Credential \<Rightarrow> string \<Rightarrow> string list \<Rightarrow> 'w TesterState
   \<Rightarrow> CredentialTestResult option \<times> 'w TesterState" where
  "tryFormEndpoints env target c ts [] st = (None, st)"
| "tryFormEndpoints env target c ts (endpoint # es) st =
     (case doHttp env (httpPostReq (baseUrlOf target @ endpoint)
                         [(''userName'', username c), (''password'', password c)]) st of
        (Inl err, st1) \<Rightarrow> tryFormEndpoints env target c ts es st1
      | (Inr resp, st1) \<Rightarrow>
          if formSuccess resp
          then (Some (httpResult target c ts True (Some (respStatus resp))
                        (''HTTP '' @ showInt (respStatus resp) @ '' via '' @ endpoint @ '' ''
                         @ emDash @ '' form login successful'')), st1)
          else tryFormEndpoints env target c ts es st1)"




definition digestParamsOf :: "'w Env \<Rightarrow> Credential \<Rightarrow> string \<Rightarrow> DigestParams" where
  "digestParamsOf env c wwwAuth =
     (let params = parseWwwAuthenticate env wwwAuth
      in \<lparr>dUsername = username c, dPassword = password c, dMethod = ''GET'', dUri = ''/'',
          dRealm = orElse (params ''realm'') '''', dNonce = orElse (params ''nonce'') '''',
          dQop = params ''qop'', dNc = None, dCnonce = None,
          dAlgorithm = params ''algorithm''\<rparr>)"

definition digestHeader :: "'w Env \<Rightarrow> Credential \<Rightarrow> HttpResponse \<Rightarrow> 'w TesterState \<Rightarrow> string \<times> 'w TesterState" where
  "digestHeader env c challengeResp st =
     (let wwwAuth = orElse (respHeaders challengeResp ''www-authenticate'') '''';
          (rnd, w') = randomHex env (world st)
      in (computeDigestAuth (md5 env) rnd (digestParamsOf env c wwwAuth), st\<lparr>world := w'\<rparr>))"




definition describeReq :: "string \<Rightarrow> nat \<Rightarrow> string \<Rightarrow> Credential option \<Rightarrow> RtspRequest" where
  "describeReq h p path a =
     \<lparr>rtspHost = h, rtspPort = p, rtspPath = path, rtspAuth = a, rtspTimeout = 5000\<rparr>"


definition rtspPortOf :: "FingerprintResult \<Rightarrow> nat" where
  "rtspPortOf target =
     (if Rtsp \<in> set (protocols target)
      then (case find (\<lambda>p. p = port target) [554, 8554, 8555, 10554] of
              Some p \<Rightarrow> if p = 0 then 554 else p
            | None \<Rightarrow> 554)
      else 554)"

definition testPathOf :: "FingerprintResult \<Rightarrow> string" where
  "testPathOf target =
     (case RTSP_PATHS (vendor target) of
        [] \<Rightarrow> ''/''
      | p # ps \<Rightarrow> if p = [] then ''/'' else p)"

definition rtspResult ::
  "FingerprintResult \<Rightarrow> Credential \<Rightarrow> string \<Rightarrow> bool \<Rightarrow> int option \<Rightarrow> string \<Rightarrow> CredentialTestResult" where
  "rtspResult target c ts ok code ev =
     \<lparr>resIp = ip target, resPort = rtspPortOf target, resVendor = vendor target,
      resProtocol = Rtsp, resCredential = c, success = ok, responseCode = code,
      evidence = ev, timestamp = ts\<rparr>"



text \<open>
  \<^verbatim>\<open>testHost\<close> (lines 63-111, the same text in both implementations), with the two
  test functions as parameters. The rate limiter and the delay between attempts only
  wait; they are left out. After a success \<^verbatim>\<open>foundValid\<close> ends the loop at the head
  of the next iteration, so the model returns at once.
\<close>

fun testHostLoop ::
  "('w Env \<Rightarrow> FingerprintResult \<Rightarrow> Credential \<Rightarrow> 'w TesterState \<Rightarrow> CredentialTestResult \<times> 'w TesterState)
   \<Rightarrow> ('w Env \<Rightarrow> FingerprintResult \<Rightarrow> Credential \<Rightarrow> 'w TesterState \<Rightarrow> CredentialTestResult \<times> 'w TesterState)
   \<Rightarrow> 'w Env \<Rightarrow> FingerprintResult \<Rightarrow> VeilcamsConfig \<Rightarrow> Credential list \<Rightarrow> nat
   \<Rightarrow> CredentialTestResult list \<Rightarrow> 'w TesterState
   \<Rightarrow> CredentialTestResult list \<times> 'w TesterState" where
  "testHostLoop httpTest rtspTest env target config [] attempts results st = (results, st)"
| "testHostLoop httpTest rtspTest env target config (c # cs) attempts results st =
     (if attempts \<ge> max_attempts_per_host config then (results, st)
      else
        (let (httpDone, attempts1, results1, st1) =
               (if Http \<in> set (protocols target) \<or> Https \<in> set (protocols target)
                then (let (httpResult, s) = httpTest env target c st
                      in (success httpResult, attempts + 1, results @ [httpResult], s))
                else (False, attempts, results, st))
         in if httpDone then (results1, st1)
            else if Rtsp \<in> set (protocols target) \<and> protocols_rtsp config then
              (let (rtspResult, st2) = rtspTest env target c st1
               in if success rtspResult then (results1 @ [rtspResult], st2)
                  else testHostLoop httpTest rtspTest env target config cs (attempts1 + 1)
                         (results1 @ [rtspResult]) st2)
            else testHostLoop httpTest rtspTest env target config cs attempts1 results1 st1))"


section \<open>Credential tester without baseline validation\<close>

text \<open>
  The implementation of \<^verbatim>\<open>src/modules/credential-tester.ts\<close>, lines 145-339: the
  functions of the same names, written here with the suffix \<open>_ct\<close>. It keeps no caches.
\<close>

definition plainAttempt ::
  "'w Env \<Rightarrow> FingerprintResult \<Rightarrow> Credential \<Rightarrow> string \<Rightarrow> string \<Rightarrow> 'w TesterState
   \<Rightarrow> CredentialTestResult \<times> 'w TesterState" where
  "plainAttempt env target c ts okText st =
     (case doHttp env (httpGetReq (baseUrlOf target) (Some c) None) st of
        (Inl err, st1) \<Rightarrow> (connectionError target c ts err, st1)
      | (Inr resp, st1) \<Rightarrow>
          (let ok = statusOkBasic (respStatus resp)
           in (httpResult target c ts ok (Some (respStatus resp))
                 (''HTTP '' @ showInt (respStatus resp) @ '' '' @ emDash @ '' ''
                  @ (if ok then okText else ''authentication failed'')), st1)))"

definition digestAttempt_ct ::
  "'w Env \<Rightarrow> FingerprintResult \<Rightarrow> Credential \<Rightarrow> string \<Rightarrow> 'w TesterState
   \<Rightarrow> CredentialTestResult \<times> 'w TesterState" where
  "digestAttempt_ct env target c ts st =
     (case doHttp env (httpGetReq (baseUrlOf target) None None) st of
        (Inl err, st1) \<Rightarrow> (connectionError target c ts err, st1)
      | (Inr challengeResp, st1) \<Rightarrow>
          (let (authHeader, st2) = digestHeader env c challengeResp st1
           in case doHttp env (httpGetReq (baseUrlOf target) None (Some authHeader)) st2 of
                (Inl err, st3) \<Rightarrow> (connectionError target c ts err, st3)
              | (Inr resp, st3) \<Rightarrow>
                  (let ok = statusOkDigest (respStatus resp)
                   in (httpResult target c ts ok (Some (respStatus resp))
                         (''HTTP '' @ showInt (respStatus resp) @ '' '' @ emDash @ '' ''
                          @ (if ok then ''authenticated access granted via Digest auth''
                             else ''Digest authentication failed'')), st3))))"

definition testHttpAuth_ct ::
  "'w Env \<Rightarrow> FingerprintResult \<Rightarrow> Credential \<Rightarrow> 'w TesterState
   \<Rightarrow> CredentialTestResult \<times> 'w TesterState" where
  "testHttpAuth_ct env target c st =
     (let ts = clock env (world st)
      in if authType target = AuthBasic \<or> authType target = AuthUnknown then
           plainAttempt env target c ts ''authenticated access granted via Basic auth'' st
         else if authType target = AuthDigest then digestAttempt_ct env target c ts st
         else
           (let (found, st1) =
                  (if authType target = AuthForm
                   then tryFormEndpoints env target c ts loginEndpoints st
                   else (None, st))
            in case found of
                 Some r \<Rightarrow> (r, st1)
               | None \<Rightarrow> plainAttempt env target c ts ''authenticated access granted'' st1))"

definition testRtspAuth_ct ::
  "'w Env \<Rightarrow> FingerprintResult \<Rightarrow> Credential \<Rightarrow> 'w TesterState
   \<Rightarrow> CredentialTestResult \<times> 'w TesterState" where
  "testRtspAuth_ct env target c st =
     (let ts = clock env (world st);
          rtspPort = rtspPortOf target;
          testPath = testPathOf target
      in case doRtsp env (describeReq (ip target) rtspPort testPath (Some c)) st of
           (Inl err, st1) \<Rightarrow> (rtspResult target c ts False None (''RTSP error: '' @ err), st1)
         | (Inr result, st1) \<Rightarrow>
             (let ok = (statusCode result = 200)
              in (rtspResult target c ts ok (Some (statusCode result))
                    (''RTSP '' @ showInt (statusCode result) @ '' '' @ emDash @ '' ''
                     @ (if ok then ''stream access granted at '' @ testPath
                        else ''authentication failed'')), st1)))"

definition testHost_ct ::
  "'w Env \<Rightarrow> FingerprintResult \<Rightarrow> VeilcamsConfig \<Rightarrow> 'w TesterState
   \<Rightarrow> CredentialTestResult list \<times> 'w TesterState" where
  "testHost_ct env target config st =
     testHostLoop testHttpAuth_ct testRtspAuth_ct env target config
       (buildCredentialList target config) 0 [] st"

section \<open>Hypotheses about hosts\<close>






text \<open>
  \<open>openRtsp env h p path\<close>: every DESCRIBE of the path without credentials is answered
  with status 200. \<open>rtspCacheConsistent\<close>: the cache holds nothing for the key, or
  what such a host gives.
\<close>

definition openRtsp :: "'w Env \<Rightarrow> string \<Rightarrow> nat \<Rightarrow> string \<Rightarrow> bool" where
  "openRtsp env h p path =
     (\<forall>w. \<exists>rw. fst (rtspNet env w (describeReq h p path None)) = Inr \<lparr>statusCode = 200, raw = rw\<rparr>)"

definition rtspCacheConsistent :: "'w TesterState \<Rightarrow> string \<Rightarrow> bool" where
  "rtspCacheConsistent st key = (rtspUnauthCache st key = None \<or> rtspUnauthCache st key = Some True)"

text \<open>
  \<open>stateless env h r rnd\<close>: the hosts answer by the request alone (\<open>h\<close> for HTTP,
  \<open>r\<close> for RTSP) and the random source always gives \<open>rnd\<close>.
\<close>

definition stateless ::
  "'w Env \<Rightarrow> (HttpRequest \<Rightarrow> string + HttpResponse) \<Rightarrow> (RtspRequest \<Rightarrow> string + RtspResponse)
   \<Rightarrow> string \<Rightarrow> bool" where
  "stateless env h r rnd =
     ((\<forall>w req. fst (httpNet env w req) = h req) \<and> (\<forall>w req. fst (rtspNet env w req) = r req)
      \<and> (\<forall>w. fst (randomHex env w) = rnd))"


definition openStream :: "RtspRequest \<Rightarrow> string + RtspResponse" where
  "openStream req = rtspReply 200"

definition lockedStream :: "RtspRequest \<Rightarrow> string + RtspResponse" where
  "lockedStream req =
     (if rtspAuth req = Some (cred ''admin'' ''12345'') then rtspReply 200 else rtspReply 401)"




section \<open>Simplifier setup\<close>

text \<open>
  The equation of \<open>showNat\<close> is recursive under a condition; it is unfolded by hand
  or by evaluation only.
\<close>

declare showNat.simps [simp del]

section \<open>Properties of the credential list\<close>

lemma foldl_addCred_firstByKey:
  "foldl addCred (acc, seen) cs = (acc @ firstByKey seen cs, seen \<union> credKey ` set cs)"
proof (induction cs arbitrary: acc seen)
  case Nil
  show ?case by simp
next
  case (Cons c cs)
  show ?case
  proof (cases "credKey c \<in> seen")
    case True
    then show ?thesis using Cons.IH [of acc seen] by (auto simp: addCred_def Let_def)
  next
    case False
    then show ?thesis
      using Cons.IH [of "acc @ [c]" "insert (credKey c) seen"]
      by (auto simp: addCred_def Let_def)
  qed
qed

lemma firstByKey_append:
  "firstByKey seen (xs @ ys) = firstByKey seen xs @ firstByKey (seen \<union> credKey ` set xs) ys"
  by (induction xs arbitrary: seen) (auto simp: insert_absorb)

lemma firstByKey_keys:
  "credKey ` set (firstByKey seen cs) = credKey ` set cs - seen"
  by (induction cs arbitrary: seen) auto

lemma firstByKey_distinct: "distinct (map credKey (firstByKey seen cs))"
proof (induction cs arbitrary: seen)
  case Nil
  show ?case by simp
next
  case (Cons c cs)
  have "credKey c \<notin> credKey ` set (firstByKey (insert (credKey c) seen) cs)"
    by (simp add: firstByKey_keys)
  then show ?case using Cons.IH by auto
qed

lemma firstByKey_subseq: "subseq (firstByKey seen cs) cs"
  by (induction cs arbitrary: seen) auto

lemma firstByKey_find:
  "find (\<lambda>c. credKey c = k) (firstByKey seen cs) =
     (if k \<in> seen then None else find (\<lambda>c. credKey c = k) cs)"
proof (induction cs arbitrary: seen)
  case Nil
  show ?case by simp
next
  case (Cons c cs)
  show ?case
  proof (cases "credKey c \<in> seen")
    case True
    then show ?thesis using Cons.IH [of seen] by auto
  next
    case False
    then show ?thesis using Cons.IH [of "insert (credKey c) seen"] by auto
  qed
qed

lemma firstByKey_id:
  "distinct (map credKey cs) \<Longrightarrow> credKey ` set cs \<inter> seen = {} \<Longrightarrow> firstByKey seen cs = cs"
  by (induction cs arbitrary: seen) auto

lemma DEFAULT_CREDENTIALS_distinct: "distinct (map credKey (DEFAULT_CREDENTIALS v))"
  by (cases v) (simp_all add: cred_def credKey_def)

declare DEFAULT_CREDENTIALS.simps [simp del]

lemma buildCredentialList_firstByKey:
  "use_defaults config \<Longrightarrow>
   buildCredentialList target config = firstByKey {} (candidateList target config)"
  by (simp add: buildCredentialList_def candidateList_def vendorBlock_def genericBlock_def
      forEach_addCred_def foldl_addCred_firstByKey firstByKey_append Let_def)

text \<open>
  Claim C8. With \<^verbatim>\<open>use_defaults\<close> enabled the list is made of three consecutive
  blocks: the vendor's defaults (all of them, unchanged), then the generic defaults whose
  key is new (none when the vendor is \<^verbatim>\<open>unknown\<close>, whose vendor list is the generic
  list), then the custom credentials whose key is new. No two entries share a
  \<^verbatim>\<open>username:password\<close> key, the entries come in the order of the concatenated
  input, every key of the input is represented, and the entry kept for a key is the first
  one of the input with that key.
\<close>

theorem C8_buildCredentialList_ordered_dedup:
  assumes "use_defaults config"
  shows "buildCredentialList target config =
           vendorBlock target
           @ firstByKey (credKey ` set (vendorBlock target)) (genericBlock target)
           @ firstByKey (credKey ` set (vendorBlock target) \<union> credKey ` set (genericBlock target))
               (custom config)
         \<and> distinct (map credKey (buildCredentialList target config))
         \<and> subseq (buildCredentialList target config) (candidateList target config)
         \<and> credKey ` set (buildCredentialList target config)
             = credKey ` set (candidateList target config)
         \<and> (\<forall>k. find (\<lambda>c. credKey c = k) (buildCredentialList target config)
                = find (\<lambda>c. credKey c = k) (candidateList target config))"
proof -
  let ?V = "vendorBlock target" and ?G = "genericBlock target"
  have res: "buildCredentialList target config = firstByKey {} (candidateList target config)"
    using assms by (rule buildCredentialList_firstByKey)
  have V: "firstByKey {} ?V = ?V"
    by (rule firstByKey_id) (simp_all add: vendorBlock_def DEFAULT_CREDENTIALS_distinct)
  have h1: "buildCredentialList target config =
          ?V @ firstByKey (credKey ` set ?V) ?G
          @ firstByKey (credKey ` set ?V \<union> credKey ` set ?G) (custom config)"
    by (simp add: res candidateList_def firstByKey_append V)
  have h2: "distinct (map credKey (buildCredentialList target config))"
    by (simp add: res firstByKey_distinct)
  have h3: "subseq (buildCredentialList target config) (candidateList target config)"
    unfolding res by (rule firstByKey_subseq)
  have h4: "credKey ` set (buildCredentialList target config)
                 = credKey ` set (candidateList target config)"
    unfolding res by (simp only: firstByKey_keys Diff_empty)
  have h5: "\<forall>k. find (\<lambda>c. credKey c = k) (buildCredentialList target config)
                = find (\<lambda>c. credKey c = k) (candidateList target config)"
    unfolding res by (simp only: firstByKey_find empty_iff if_False) simp
  show ?thesis
    by (rule conjI [OF h1 conjI [OF h2 conjI [OF h3 conjI [OF h4 h5]]]])
qed

lemma buildCredentialList_example:
  "buildCredentialList
       \<lparr>ip = ''192.0.2.10'', port = 80, vendor = Uniview, protocols = [Http], authType = AuthBasic\<rparr>
       \<lparr>use_defaults = True, custom = [cred ''admin'' ''admin'', cred ''root'' ''toor''],
        max_attempts_per_host = 10, protocols_rtsp = True\<rparr>
     = [cred ''admin'' ''123456'', cred ''admin'' ''admin'', cred ''admin'' '''',
        cred ''admin'' ''12345'', cred ''admin'' ''password'', cred ''root'' ''root'',
        cred ''root'' '''', cred ''user'' ''user'', cred ''admin'' ''1234'',
        cred ''admin'' ''admin123'', cred ''root'' ''toor'']"
  by code_simp

theorem C8_buildCredentialList_witness:
  "use_defaults \<lparr>use_defaults = True, custom = [cred ''admin'' ''admin'', cred ''root'' ''toor''],
      max_attempts_per_host = 10, protocols_rtsp = True\<rparr>
   \<and> distinct (map credKey (buildCredentialList
       \<lparr>ip = ''192.0.2.10'', port = 80, vendor = Uniview, protocols = [Http], authType = AuthBasic\<rparr>
       \<lparr>use_defaults = True, custom = [cred ''admin'' ''admin'', cred ''root'' ''toor''],
        max_attempts_per_host = 10, protocols_rtsp = True\<rparr>))
   \<and> subseq (buildCredentialList
       \<lparr>ip = ''192.0.2.10'', port = 80, vendor = Uniview, protocols = [Http], authType = AuthBasic\<rparr>
       \<lparr>use_defaults = True, custom = [cred ''admin'' ''admin'', cred ''root'' ''toor''],
        max_attempts_per_host = 10, protocols_rtsp = True\<rparr>)
      (candidateList
       \<lparr>ip = ''192.0.2.10'', port = 80, vendor = Uniview, protocols = [Http], authType = AuthBasic\<rparr>
       \<lparr>use_defaults = True, custom = [cred ''admin'' ''admin'', cred ''root'' ''toor''],
        max_attempts_per_host = 10, protocols_rtsp = True\<rparr>)"
proof -
  let ?C = "\<lparr>use_defaults = True, custom = [cred ''admin'' ''admin'', cred ''root'' ''toor''],
      max_attempts_per_host = 10, protocols_rtsp = True\<rparr>"
  let ?T = "\<lparr>ip = ''192.0.2.10'', port = 80, vendor = Uniview, protocols = [Http], authType = AuthBasic\<rparr>"
  have h: "use_defaults ?C" by simp
  from C8_buildCredentialList_ordered_dedup [OF h, of ?T]
  have "distinct (map credKey (buildCredentialList ?T ?C))"
    and "subseq (buildCredentialList ?T ?C) (candidateList ?T ?C)"
    by blast+
  with h show ?thesis by blast
qed

section \<open>Properties of the baseline comparison\<close>

subsection \<open>What the marker pattern matches\<close>

lemma map_of_zip_range: "map_of (zip us ls) c = Some l \<Longrightarrow> l \<in> set ls \<and> c \<in> set us"
  by (auto dest!: map_of_SomeD dest: set_zip_leftD set_zip_rightD)

lemma toLowerAscii_lineTerminator:
  "toLowerAscii x \<in> set lineTerminators \<longleftrightarrow> x \<in> set lineTerminators"
proof (cases "map_of (zip ''ABCDEFGHIJKLMNOPQRSTUVWXYZ'' ''abcdefghijklmnopqrstuvwxyz'') x")
  case None
  show ?thesis unfolding toLowerAscii_def None by simp
next
  case (Some l)
  from map_of_zip_range [OF Some]
  have "l \<notin> set lineTerminators" "x \<notin> set lineTerminators"
    by (auto simp: lineTerminators_def)
  then show ?thesis unfolding toLowerAscii_def Some by simp
qed

lemma matchSeq_lit:
  "matchSeq (lit w @ r) t \<longleftrightarrow>
     (\<exists>u v. t = u @ v \<and> toLowerCase u = toLowerCase w \<and> matchSeq r v)"
proof (induction w arbitrary: t)
  case Nil
  show ?case by (simp add: lit_def toLowerCase_def)
next
  case (Cons c w)
  show ?case
  proof (cases t)
    case Nil
    then show ?thesis by (simp add: lit_def toLowerCase_def)
  next
    case (Cons x xs)
    have "matchSeq (lit (c # w) @ r) (x # xs)
          \<longleftrightarrow> toLowerAscii x = toLowerAscii c \<and> matchSeq (lit w @ r) xs"
      by (simp add: lit_def)
    also have "\<dots> \<longleftrightarrow> toLowerAscii x = toLowerAscii c
                 \<and> (\<exists>u v. xs = u @ v \<and> toLowerCase u = toLowerCase w \<and> matchSeq r v)"
      by (simp only: Cons.IH)
    also have "\<dots> \<longleftrightarrow> (\<exists>u v. x # xs = u @ v \<and> toLowerCase u = toLowerCase (c # w) \<and> matchSeq r v)"
      (is "?L \<longleftrightarrow> ?R")
    proof
      assume ?L
      then obtain u v where "xs = u @ v" "toLowerCase u = toLowerCase w" "matchSeq r v"
        and "toLowerAscii x = toLowerAscii c" by blast
      then have "x # xs = (x # u) @ v \<and> toLowerCase (x # u) = toLowerCase (c # w) \<and> matchSeq r v"
        by (simp add: toLowerCase_def)
      then show ?R by blast
    next
      assume ?R
      then obtain u v where uv: "x # xs = u @ v" "toLowerCase u = toLowerCase (c # w)" "matchSeq r v"
        by blast
      from uv(2) obtain y u' where u: "u = y # u'"
        by (cases u) (auto simp: toLowerCase_def)
      with uv show ?L by (auto simp: toLowerCase_def)
    qed
    finally show ?thesis using Cons by simp
  qed
qed

lemma matchSeq_lit_only:
  "matchSeq (lit w) t \<longleftrightarrow> (\<exists>u v. t = u @ v \<and> toLowerCase u = toLowerCase w)"
  using matchSeq_lit [of w "[]" t] by simp

lemma matchSeq_Optional:
  "matchSeq (Optional k # r) t \<longleftrightarrow>
     matchSeq r t \<or> (\<exists>x v. t = x # v \<and> clsOk k x \<and> matchSeq r v)"
  by (cases t) auto

lemma regexTest_iff:
  "regexTest alts s \<longleftrightarrow> (\<exists>p \<in> set alts. \<exists>pre t. s = pre @ t \<and> matchSeq p t)"
proof (induction s)
  case Nil
  show ?case by (auto simp: list_ex_iff)
next
  case (Cons x xs)
  show ?case (is "?L \<longleftrightarrow> ?R")
  proof
    assume ?L
    then consider "\<exists>p \<in> set alts. matchSeq p (x # xs)" | "regexTest alts xs"
      by (auto simp: list_ex_iff)
    then show ?R
    proof cases
      case 1
      then obtain p where "p \<in> set alts" "x # xs = [] @ (x # xs)" "matchSeq p (x # xs)" by auto
      then show ?thesis by blast
    next
      case 2
      then obtain p pre t where "p \<in> set alts" "xs = pre @ t" "matchSeq p t"
        using Cons.IH by blast
      then have "p \<in> set alts \<and> x # xs = (x # pre) @ t \<and> matchSeq p t" by simp
      then show ?thesis by blast
    qed
  next
    assume ?R
    then obtain p pre t where p: "p \<in> set alts" "x # xs = pre @ t" "matchSeq p t" by blast
    show ?L
    proof (cases pre)
      case Nil
      with p show ?thesis by (auto simp: list_ex_iff)
    next
      case (Cons y pre')
      with p have "xs = pre' @ t" by simp
      with p have "regexTest alts xs" using Cons.IH by blast
      then show ?thesis by simp
    qed
  qed
qed

lemma sublist_toLowerCase:
  "sublist w (toLowerCase s) \<longleftrightarrow> (\<exists>pre u post. s = pre @ u @ post \<and> toLowerCase u = w)"
  (is "?L \<longleftrightarrow> ?R")
proof
  assume ?L
  then have "\<exists>ps ss. map toLowerAscii s = ps @ w @ ss"
    by (simp only: sublist_def toLowerCase_def)
  then obtain ps ss where "map toLowerAscii s = ps @ w @ ss" by blast
  then have "\<exists>s1 s2. s = s1 @ s2 \<and> ps = map toLowerAscii s1 \<and> w @ ss = map toLowerAscii s2"
    by (simp only: map_eq_append_conv)
  then obtain s1 s2 where s1: "s = s1 @ s2" "map toLowerAscii s2 = w @ ss" by auto
  from s1(2) have "\<exists>u post. s2 = u @ post \<and> w = map toLowerAscii u \<and> ss = map toLowerAscii post"
    by (simp only: map_eq_append_conv)
  then obtain u post where "s2 = u @ post" "map toLowerAscii u = w" by auto
  with s1(1) have "s = s1 @ u @ post \<and> toLowerCase u = w"
    by (simp add: toLowerCase_def)
  then show ?R by blast
next
  assume ?R
  then obtain pre u post where "s = pre @ u @ post" "toLowerCase u = w" by blast
  then have "toLowerCase s = toLowerCase pre @ w @ toLowerCase post"
    by (simp add: toLowerCase_def)
  then show ?L unfolding sublist_def by blast
qed

lemma contains_literal:
  assumes "toLowerCase w = w"
  shows "(\<exists>pre t. s = pre @ t \<and> matchSeq (lit w) t) \<longleftrightarrow> sublist w (toLowerCase s)"
  (is "?L \<longleftrightarrow> ?R")
proof
  assume ?L
  then obtain pre t where "s = pre @ t" "matchSeq (lit w) t" by blast
  then have "s = pre @ t \<and> (\<exists>u v. t = u @ v \<and> toLowerCase u = w)"
    by (simp only: matchSeq_lit_only assms)
  then obtain u v where "s = pre @ u @ v" "toLowerCase u = w" by blast
  then show ?R unfolding sublist_toLowerCase by blast
next
  assume ?R
  then have "\<exists>pre u post. s = pre @ u @ post \<and> toLowerCase u = w"
    by (simp only: sublist_toLowerCase)
  then obtain pre u post where s: "s = pre @ u @ post" "toLowerCase u = w" by blast
  then have "matchSeq (lit w) (u @ post)"
    unfolding matchSeq_lit_only assms by blast
  with s(1) show ?L by blast
qed

lemma toLowerCase_split:
  "toLowerCase m = a @ b \<Longrightarrow> \<exists>u u2. m = u @ u2 \<and> toLowerCase u = a \<and> toLowerCase u2 = b"
  unfolding toLowerCase_def map_eq_append_conv by blast

lemma toLowerCase_single: "toLowerCase xs = [c] \<Longrightarrow> \<exists>x. xs = [x] \<and> toLowerAscii x = c"
  by (cases xs) (auto simp: toLowerCase_def)

lemma toLowerCase_append: "toLowerCase (u @ v) = toLowerCase u @ toLowerCase v"
  by (simp add: toLowerCase_def)

lemma contains_optional_dot:
  assumes a: "toLowerCase a = a" and b: "toLowerCase b = b"
  shows "(\<exists>pre t. s = pre @ t \<and> matchSeq (lit a @ [Optional CDot] @ lit b) t) \<longleftrightarrow>
     sublist (a @ b) (toLowerCase s)
     \<or> (\<exists>c. c \<notin> set lineTerminators \<and> sublist (a @ [c] @ b) (toLowerCase s))"
  (is "?L \<longleftrightarrow> ?A \<or> ?B")
proof
  assume ?L
  then obtain pre t where t: "s = pre @ t" "matchSeq (lit a @ (Optional CDot # lit b)) t"
    by auto
  from t(2) have "\<exists>u v. t = u @ v \<and> toLowerCase u = a \<and> matchSeq (Optional CDot # lit b) v"
    by (simp only: matchSeq_lit a)
  then obtain u v where uv: "t = u @ v" "toLowerCase u = a" "matchSeq (Optional CDot # lit b) v"
    by blast
  from uv(3) have "matchSeq (lit b) v
      \<or> (\<exists>x v'. v = x # v' \<and> clsOk CDot x \<and> matchSeq (lit b) v')"
    by (simp only: matchSeq_Optional)
  then consider "matchSeq (lit b) v"
    | x v' where "v = x # v'" "x \<notin> set lineTerminators" "matchSeq (lit b) v'"
    by auto
  then show "?A \<or> ?B"
  proof cases
    case 1
    then have "\<exists>u2 post. v = u2 @ post \<and> toLowerCase u2 = b"
      by (simp only: matchSeq_lit_only b)
    then obtain u2 post where "v = u2 @ post" "toLowerCase u2 = b" by blast
    with t uv have "s = pre @ (u @ u2) @ post \<and> toLowerCase (u @ u2) = a @ b"
      by (simp add: toLowerCase_append)
    then have ?A unfolding sublist_toLowerCase by blast
    then show ?thesis ..
  next
    case 2
    then have "\<exists>u2 post. v' = u2 @ post \<and> toLowerCase u2 = b"
      by (simp only: matchSeq_lit_only b)
    then obtain u2 post where "v' = u2 @ post" "toLowerCase u2 = b" by blast
    with t uv 2 have "s = pre @ (u @ [x] @ u2) @ post
        \<and> toLowerCase (u @ [x] @ u2) = a @ [toLowerAscii x] @ b"
      by (simp add: toLowerCase_append) (simp add: toLowerCase_def)
    moreover have "toLowerAscii x \<notin> set lineTerminators"
      using 2 by (simp only: toLowerAscii_lineTerminator not_False_eq_True)
    ultimately have ?B unfolding sublist_toLowerCase by blast
    then show ?thesis ..
  qed
next
  assume "?A \<or> ?B"
  then show ?L
  proof
    assume ?A
    then have "\<exists>pre m post. s = pre @ m @ post \<and> toLowerCase m = a @ b"
      by (simp only: sublist_toLowerCase)
    then obtain pre m post where m: "s = pre @ m @ post" "toLowerCase m = a @ b"
      by blast
    from toLowerCase_split [OF m(2)]
    obtain u u2 where u: "m = u @ u2" "toLowerCase u = a" "toLowerCase u2 = b"
      by blast
    have "matchSeq (lit b) (u2 @ post)"
      unfolding matchSeq_lit_only b using u(3) by blast
    then have "matchSeq (Optional CDot # lit b) (u2 @ post)"
      unfolding matchSeq_Optional by blast
    then have "matchSeq (lit a @ (Optional CDot # lit b)) (u @ u2 @ post)"
      unfolding matchSeq_lit a using u(2) by blast
    with m u have "s = pre @ (u @ u2 @ post)
        \<and> matchSeq (lit a @ [Optional CDot] @ lit b) (u @ u2 @ post)" by simp
    then show ?L by blast
  next
    assume ?B
    then have "\<exists>c. c \<notin> set lineTerminators
        \<and> (\<exists>pre m post. s = pre @ m @ post \<and> toLowerCase m = a @ [c] @ b)"
      by (simp only: sublist_toLowerCase)
    then obtain c pre m post where c: "c \<notin> set lineTerminators"
      and m: "s = pre @ m @ post" "toLowerCase m = a @ ([c] @ b)"
      by blast
    from toLowerCase_split [OF m(2)]
    obtain u m2 where u: "m = u @ m2" "toLowerCase u = a" "toLowerCase m2 = [c] @ b"
      by blast
    from toLowerCase_split [OF u(3)]
    obtain xs u2 where x: "m2 = xs @ u2" "toLowerCase xs = [c]" "toLowerCase u2 = b"
      by blast
    from toLowerCase_single [OF x(2)] obtain x where xs: "xs = [x]" "toLowerAscii x = c" by blast
    have "x \<notin> set lineTerminators"
      using c xs(2) toLowerAscii_lineTerminator [of x] by blast
    moreover have "matchSeq (lit b) (u2 @ post)"
      unfolding matchSeq_lit_only b using x(3) by blast
    ultimately have "matchSeq (Optional CDot # lit b) (x # u2 @ post)"
      unfolding matchSeq_Optional by simp
    then have "matchSeq (lit a @ (Optional CDot # lit b)) (u @ x # u2 @ post)"
      unfolding matchSeq_lit a using u(2) by blast
    with m u x xs have "s = pre @ (u @ x # u2 @ post)
        \<and> matchSeq (lit a @ [Optional CDot] @ lit b) (u @ x # u2 @ post)" by simp
    then show ?L by blast
  qed
qed

lemma contains_sign_out:
  "(\<exists>pre t. s = pre @ t \<and> matchSeq (lit ''sign'' @ [Optional CDot] @ lit ''out'') t) \<longleftrightarrow>
     sublist ''signout'' (toLowerCase s)
     \<or> (\<exists>c. c \<notin> set lineTerminators \<and> sublist (''sign'' @ [c] @ ''out'') (toLowerCase s))"
proof -
  have sign: "toLowerCase ''sign'' = ''sign''" and out: "toLowerCase ''out'' = ''out''"
    by (simp_all add: toLowerCase_def toLowerAscii_def)
  have "''sign'' @ ''out'' = ''signout''" by simp
  with contains_optional_dot [OF sign out, of s] show ?thesis by (simp only:)
qed

lemma regexTest_authIndicators: "regexTest authIndicators s = hasAuthMarker s"
proof -
  let ?C = "\<lambda>p. \<exists>pre t. s = pre @ t \<and> matchSeq p t"
  let ?S = "\<lambda>w. sublist w (toLowerCase s)"
  have c1: "?C (lit ''logout'') = ?S ''logout''"
    by (rule contains_literal) (simp add: toLowerCase_def toLowerAscii_def)
  have c2: "?C (lit ''dashboard'') = ?S ''dashboard''"
    by (rule contains_literal) (simp add: toLowerCase_def toLowerAscii_def)
  have c3: "?C (lit ''welcome'') = ?S ''welcome''"
    by (rule contains_literal) (simp add: toLowerCase_def toLowerAscii_def)
  have c4: "?C (lit ''session'') = ?S ''session''"
    by (rule contains_literal) (simp add: toLowerCase_def toLowerAscii_def)
  have c5: "?C (lit ''authenticated'') = ?S ''authenticated''"
    by (rule contains_literal) (simp add: toLowerCase_def toLowerAscii_def)
  have c6: "?C (lit ''token'') = ?S ''token''"
    by (rule contains_literal) (simp add: toLowerCase_def toLowerAscii_def)
  have "regexTest authIndicators s \<longleftrightarrow>
          ?C (lit ''logout'') \<or> ?C (lit ''sign'' @ [Optional CDot] @ lit ''out'')
          \<or> ?C (lit ''dashboard'') \<or> ?C (lit ''welcome'') \<or> ?C (lit ''session'')
          \<or> ?C (lit ''authenticated'') \<or> ?C (lit ''token'')"
    unfolding regexTest_iff authIndicators_def
    by (simp only: list.set bex_simps insert_iff empty_iff simp_thms)
  also have "\<dots> \<longleftrightarrow>
          ?S ''logout'' \<or> (?S ''signout''
            \<or> (\<exists>c. c \<notin> set lineTerminators \<and> ?S (''sign'' @ [c] @ ''out'')))
          \<or> ?S ''dashboard'' \<or> ?S ''welcome'' \<or> ?S ''session''
          \<or> ?S ''authenticated'' \<or> ?S ''token''"
    by (simp only: c1 c2 c3 c4 c5 c6 contains_sign_out)
  also have "\<dots> \<longleftrightarrow> hasAuthMarker s"
    unfolding hasAuthMarker_def
    by (simp only: list.set bex_simps insert_iff empty_iff simp_thms) blast
  finally show ?thesis .
qed

subsection \<open>The case analysis\<close>

lemma ratio_small:
  assumes "0 < m"
  shows "(real_of_int d / real m < 1 / 10) = (10 * d < int m)"
proof -
  have "real_of_int d / real m < 1 / 10 \<longleftrightarrow> real_of_int d * 10 < real m"
    using assms by (simp add: field_simps)
  also have "\<dots> \<longleftrightarrow> real_of_int (10 * d) < real_of_int (int m)"
    by (simp add: mult.commute)
  also have "\<dots> \<longleftrightarrow> 10 * d < int m"
    by (simp only: of_int_less_iff)
  finally show ?thesis .
qed

lemma isAuthenticatedResponseDifferent_regex_cases:
  "isAuthenticatedResponseDifferent b a =
     (((status b = 401 \<or> status b = 403) \<and> okStatus (status a))
      \<or> (status b = - 1 \<and> okStatus (status a))
      \<or> (status b = status a \<and> body b \<noteq> body a \<and> \<not> sizeDiffSmall b a)
      \<or> (status b = status a \<and> sizeDiffSmall b a
          \<and> regexTest authIndicators (body a) \<and> \<not> regexTest authIndicators (body b))
      \<or> (okStatus (status a) \<and> status b \<ge> 400))"
proof (cases "body b = body a")
  case True
  then have "\<not> (regexTest authIndicators (body a) \<and> \<not> regexTest authIndicators (body b))"
    by simp
  with True show ?thesis
    unfolding isAuthenticatedResponseDifferent_def okStatus_def by auto
next
  case False
  then have "0 < length (body b) \<or> 0 < length (body a)" by auto
  then have pos: "0 < max (length (body b)) (length (body a))"
    by (simp only: less_max_iff_disj)
  then have m: "max (max (length (body b)) (length (body a))) 1
      = max (length (body b)) (length (body a))" by simp
  have r: "(real_of_int \<bar>int (length (body b)) - int (length (body a))\<bar>
        / real (max (length (body b)) (length (body a))) < 1 / 10) = sizeDiffSmall b a"
    unfolding sizeDiffSmall_def by (rule ratio_small [OF pos])
  from False show ?thesis
    unfolding isAuthenticatedResponseDifferent_def Let_def m r okStatus_def by auto
qed

lemma isAuthenticatedResponseDifferent_cases:
  "isAuthenticatedResponseDifferent b a = isDifferentCases b a"
  unfolding isAuthenticatedResponseDifferent_regex_cases isDifferentCases_def
    regexTest_authIndicators ..

subsection \<open>The baseline cache\<close>

lemma getBaseline_begin_cached:
  "baselineCache st u = Some b \<Longrightarrow> getBaseline_begin env u st = (Inl b, st)"
  by (simp add: getBaseline_begin_def)

lemma getBaseline_begin_miss:
  "baselineCache st u = None \<Longrightarrow>
   getBaseline_begin env u st =
     (Inr (fst (httpNet env (world st) (httpGetReq u None None))),
      st\<lparr>world := snd (httpNet env (world st) (httpGetReq u None None)),
         httpLog := httpLog st @ [httpGetReq u None None]\<rparr>)"
  by (simp add: getBaseline_begin_def doHttp_def split_beta)

lemma getBaseline_resume_eq:
  "getBaseline_resume u reply st =
     (replyBaseline reply, st\<lparr>baselineCache := (baselineCache st)(u \<mapsto> replyBaseline reply)\<rparr>)"
  by (simp add: getBaseline_resume_def Let_def)





text \<open>
  Claim C1, as the code has it. \<^verbatim>\<open>isAuthenticatedResponseDifferent\<close> returns true
  exactly when: the baseline status is 401 or 403 and the authenticated status is in
  [200, 400); or the baseline was unreachable (status -1) and the authenticated status is
  in [200, 400); or the statuses are equal, the bodies differ and the size difference is
  at least 10% of the larger body; or the statuses are equal, the size difference is below
  10%, and the authenticated body matches the marker pattern while the baseline body does
  not match it at all; or the authenticated status is in [200, 400) and the baseline
  status is at least 400. The marker pattern is matched case-insensitively and accepts
  logout, dashboard, welcome, session, authenticated, token, and sign followed by out with
  at most one character (not a line terminator) between them.
  A \<^verbatim>\<open>getBaseline\<close> call that finds the base URL in the cache returns the cached
  baseline and sends nothing. A call that does not find it sends one unauthenticated GET
  and waits; when it resumes it caches under the base URL, and returns, the status and
  body of the reply it waited for, or status -1 with an empty body when the request threw.
\<close>

theorem C1_baseline_differential_cases:
  "isAuthenticatedResponseDifferent baseline authed = isDifferentCases baseline authed
   \<and> (\<forall>b. baselineCache st u = Some b \<longrightarrow> getBaseline_begin env u st = (Inl b, st))
   \<and> (baselineCache st u = None \<longrightarrow>
        getBaseline_begin env u st =
          (Inr (fst (httpNet env (world st) (httpGetReq u None None))),
           st\<lparr>world := snd (httpNet env (world st) (httpGetReq u None None)),
              httpLog := httpLog st @ [httpGetReq u None None]\<rparr>))
   \<and> getBaseline_resume u reply st' =
        (replyBaseline reply, st'\<lparr>baselineCache := (baselineCache st')(u \<mapsto> replyBaseline reply)\<rparr>)
   \<and> replyBaseline (Inr resp) = \<lparr>status = respStatus resp, body = bodyOf (respData resp)\<rparr>
   \<and> replyBaseline (Inl err) = \<lparr>status = - 1, body = ''''\<rparr>"
  using isAuthenticatedResponseDifferent_cases [of baseline authed]
    getBaseline_begin_cached [of st u _ env] getBaseline_begin_miss [of st u env]
    getBaseline_resume_eq [of u reply st']
  by simp

theorem C1_baseline_differential_witness:
  "isAuthenticatedResponseDifferent \<lparr>status = 200, body = ''<html>camera page</html>''\<rparr>
       \<lparr>status = 200, body = ''<html>Sign Out...</html>''\<rparr>
   \<and> isDifferentCases \<lparr>status = 200, body = ''<html>camera page</html>''\<rparr>
       \<lparr>status = 200, body = ''<html>Sign Out...</html>''\<rparr>
   \<and> length ''<html>camera page</html>'' = length ''<html>Sign Out...</html>''
   \<and> baselineCache cachedState ''http://192.0.2.10:80'' = Some \<lparr>status = 401, body = ''''\<rparr>
   \<and> getBaseline_begin (staticEnv challengeHost noRtsp) ''http://192.0.2.10:80'' cachedState
       = (Inl \<lparr>status = 401, body = ''''\<rparr>, cachedState)
   \<and> baselineCache (emptyState (0::nat)) ''http://192.0.2.10:80'' = None
   \<and> fst (getBaseline_begin (staticEnv challengeHost noRtsp) ''http://192.0.2.10:80'' (emptyState (0::nat)))
       = Inr (httpReply 401 '''')
   \<and> httpLog (snd (getBaseline_begin (staticEnv challengeHost noRtsp) ''http://192.0.2.10:80''
                     (emptyState (0::nat))))
       = [httpGetReq ''http://192.0.2.10:80'' None None]"
proof -
  let ?B = "\<lparr>status = 200, body = ''<html>camera page</html>''\<rparr>"
  let ?A = "\<lparr>status = 200, body = ''<html>Sign Out...</html>''\<rparr>"
  let ?u = "''http://192.0.2.10:80''"
  let ?env = "staticEnv challengeHost noRtsp"
  let ?e = "emptyState (0::nat)"
  have e: "isAuthenticatedResponseDifferent ?B ?A" by code_simp
  have n: "length ''<html>camera page</html>'' = length ''<html>Sign Out...</html>''" by simp
  have c: "baselineCache cachedState ?u = Some \<lparr>status = 401, body = ''''\<rparr>"
    by (simp add: cachedState_def)
  have m: "baselineCache ?e ?u = None" by (simp add: emptyState_def)
  have r: "fst (httpNet ?env (world ?e) (httpGetReq ?u None None)) = httpReply 401 ''''"
    by (simp add: staticEnv_def challengeHost_def httpGetReq_def)
  note t1 = C1_baseline_differential_cases [of ?B ?A cachedState ?u ?env]
  note t2 = C1_baseline_differential_cases [of ?B ?A ?e ?u ?env]
  from t1 e have d: "isDifferentCases ?B ?A" by blast
  from t1 c
  have b1: "getBaseline_begin ?env ?u cachedState = (Inl \<lparr>status = 401, body = ''''\<rparr>, cachedState)"
    by blast
  from t2 [THEN conjunct2, THEN conjunct2, THEN conjunct1, THEN mp, OF m]
  have b2: "getBaseline_begin ?env ?u ?e =
          (Inr (fst (httpNet ?env (world ?e) (httpGetReq ?u None None))),
           ?e\<lparr>world := snd (httpNet ?env (world ?e) (httpGetReq ?u None None)),
              httpLog := httpLog ?e @ [httpGetReq ?u None None]\<rparr>)" .
  have f: "fst (getBaseline_begin ?env ?u ?e) = Inr (httpReply 401 '''')"
    unfolding b2 using r by simp
  have l: "httpLog (snd (getBaseline_begin ?env ?u ?e)) = [httpGetReq ?u None None]"
    unfolding b2 by (simp add: emptyState_def)
  from e d n c b1 m f l show ?thesis by blast
qed

text \<open>
  The claim as worded fails in two ways. Read literally, its marker list misses what the
  pattern accepts (\<^verbatim>\<open>signout\<close>, \<^verbatim>\<open>LOGOUT\<close>) and lets a marker of the
  authenticated body count although the baseline body has another one. And the baseline
  is not fetched at most once per base URL: two calls for one URL that are both started
  before either resumes both miss the cache and both send the GET.
\<close>

theorem C1_literal_reading_counterexample:
  "isAuthenticatedResponseDifferent \<lparr>status = 200, body = ''xxxxxxx''\<rparr> \<lparr>status = 200, body = ''signout''\<rparr>
   \<and> \<not> specIsDifferent \<lparr>status = 200, body = ''xxxxxxx''\<rparr> \<lparr>status = 200, body = ''signout''\<rparr>
   \<and> isAuthenticatedResponseDifferent \<lparr>status = 200, body = ''xxxxxx''\<rparr> \<lparr>status = 200, body = ''LOGOUT''\<rparr>
   \<and> \<not> specIsDifferent \<lparr>status = 200, body = ''xxxxxx''\<rparr> \<lparr>status = 200, body = ''LOGOUT''\<rparr>
   \<and> \<not> isAuthenticatedResponseDifferent \<lparr>status = 200, body = ''welcome''\<rparr> \<lparr>status = 200, body = ''session''\<rparr>
   \<and> specIsDifferent \<lparr>status = 200, body = ''welcome''\<rparr> \<lparr>status = 200, body = ''session''\<rparr>
   \<and> httpLog (snd (runCalls (staticEnv challengeHost noRtsp)
                     [''http://192.0.2.10:80'', ''http://192.0.2.10:80''] [0, 1, 0, 1]
                     (emptyState 0)))
       = [httpGetReq ''http://192.0.2.10:80'' None None, httpGetReq ''http://192.0.2.10:80'' None None]"
  by code_simp

section \<open>Properties of the Digest computation\<close>





lemma computeDigestAuth_example:
  "computeDigestAuth toyDigest ''ffffffffffffffff'' rfcExampleParams =
     ''Digest username='' @ dq @ ''Mufasa'' @ dq @ '', realm='' @ dq @ ''testrealm@host.com'' @ dq
     @ '', nonce='' @ dq @ ''dcd98b7102dd2f0e8b11d0f600bfb0c093'' @ dq
     @ '', uri='' @ dq @ ''/dir/index.html'' @ dq @ '', response='' @ dq @ ''63'' @ dq
     @ '', qop=auth, nc=00000001, cnonce='' @ dq @ ''0a4f113b'' @ dq @ '', algorithm=MD5-sess''"
  by code_simp


section \<open>Properties of the credential tester\<close>

subsection \<open>What the helper functions do to the state\<close>



lemma doRtsp_fst: "fst (doRtsp env req st) = fst (rtspNet env (world st) req)"
  by (simp add: doRtsp_def split_beta)







subsection \<open>A host that serves the same page with and without credentials\<close>














subsection \<open>The loop over the credentials\<close>








end
